theory Spec2Isabelle
  imports Main
begin

section \<open>The collaborators of \<open>ami_glue.h\<close>\<close>

text \<open>
  \<open>ami_glue.h\<close> defines three pipelining nodes over the containers
  \<open>tpie::ami::stream\<close> and \<open>tpie::ami::stack\<close>, and three builders. The containers,
  the status enumeration and the base class \<open>node\<close> are declared in other headers; their
  models below follow the interface description of the specification.
\<close>

subsection \<open>Status codes\<close>

text \<open>
  Modelled from the spec: the enumeration \<open>tpie::ami::err\<close>. The glue code names only
  \<open>NO_ERROR\<close>. The specification has three outcomes of a read: ok, end of input, and
  any other status, which is a container error. \<open>END_OF_STREAM\<close> is the end-of-input
  status of both containers; \<open>IO_ERROR\<close> stands for every other status.
\<close>

datatype err = NO_ERROR | END_OF_STREAM | IO_ERROR

subsection \<open>The external stream\<close>

text \<open>
  Modelled from the spec: \<open>tpie::ami::stream<T>\<close>, an ordered finite sequence of
  items with a cursor, read through \<open>stream_len\<close>, \<open>seek\<close> and \<open>read_item\<close>. The field
  \<open>bad\<close> lists the positions whose read reports a container error (unreadable blocks);
  a stream with \<open>bad = []\<close> only ever reports \<open>NO_ERROR\<close> or \<open>END_OF_STREAM\<close>.
\<close>

record 'a ami_stream =
  items :: "'a list"
  pos :: nat
  bad :: "nat list"

text \<open>Modelled from the spec: \<open>stream::stream_len()\<close>, the number of items of the stream.\<close>

definition stream_len :: "'a ami_stream \<Rightarrow> nat" where
  "stream_len s = length (items s)"

text \<open>
  Modelled from the spec: \<open>stream::seek(offset)\<close> moves the cursor to an absolute position.
  The adapter calls it with 0 only and drops its result.
\<close>

definition seek :: "nat \<Rightarrow> 'a ami_stream \<Rightarrow> 'a ami_stream" where
  "seek off s = s\<lparr>pos := off\<rparr>"

text \<open>
  Modelled from the spec: \<open>stream::read_item\<close>.
  \<open>read_item(&item)\<close> returns a status and, on \<open>NO_ERROR\<close> only, stores the address of
  the item under the cursor in \<open>item\<close> and advances the cursor. The second component of
  the result is what \<open>item\<close> points to after the call: \<open>None\<close> when the call did not
  set it.
\<close>

definition read_item :: "'a ami_stream \<Rightarrow> err \<times> 'a option \<times> 'a ami_stream" where
  "read_item s =
     (if pos s \<in> set (bad s) then (IO_ERROR, None, s)
      else if pos s < length (items s)
        then (NO_ERROR, Some (items s ! pos s), s\<lparr>pos := Suc (pos s)\<rparr>)
      else (END_OF_STREAM, None, s))"

subsection \<open>The external stack\<close>

text \<open>
  Modelled from the spec: \<open>tpie::ami::stack<T>\<close>, a finite LIFO collection read through
  \<open>size\<close>, \<open>is_empty\<close> and \<open>pop\<close>; \<open>pop\<close> consumes. \<open>elems\<close> holds the items top first.
  \<open>bad_heights\<close> lists the stack heights at which \<open>pop\<close> reports a container error: the
  item that lies on top when the stack holds that many items cannot be read.
\<close>

record 'a ami_stack =
  elems :: "'a list"
  bad_heights :: "nat list"

text \<open>Modelled from the spec: \<open>stack::size()\<close>, the number of items on the stack.\<close>

definition size_stack :: "'a ami_stack \<Rightarrow> nat" where
  "size_stack s = length (elems s)"

text \<open>Modelled from the spec: \<open>stack::is_empty()\<close>.\<close>

definition is_empty :: "'a ami_stack \<Rightarrow> bool" where
  "is_empty s = (elems s = [])"

text \<open>
  Modelled from the spec: \<open>stack::pop(&item)\<close> returns a status and, on \<open>NO_ERROR\<close> only,
  removes the top item and stores its address in \<open>item\<close>. On an empty stack the status is
  \<open>END_OF_STREAM\<close>; a failed \<open>pop\<close> leaves the stack as it is.
\<close>

definition pop :: "'a ami_stack \<Rightarrow> err \<times> 'a option \<times> 'a ami_stack" where
  "pop s =
     (if length (elems s) \<in> set (bad_heights s) then (IO_ERROR, None, s)
      else (case elems s of
              [] \<Rightarrow> (END_OF_STREAM, None, s)
            | x # xs \<Rightarrow> (NO_ERROR, Some x, s\<lparr>elems := xs\<rparr>)))"

subsection \<open>The base class \<open>node\<close> and the downstream\<close>

text \<open>
  Modelled from the spec: the part of \<open>tpie::pipelining::node\<close> the adapters use. A node
  carries the map of forwarded values, the progress total declared by \<open>set_steps\<close>, and
  the progress reported by \<open>step\<close>; \<open>stepped\<close> logs the argument of every \<open>step\<close> call in
  order, so that the cumulative sum after each call can be read off. The item counts are
  the lengths of the containers: \<open>stream_len\<close> and \<open>size\<close> are non-negative, and the cast
  to \<open>stream_size_type\<close> in \<open>propagate\<close> leaves such a value as it is.
\<close>

record node =
  forwarded :: "string \<rightharpoonup> nat"
  steps :: nat
  stepped :: "nat list"

text \<open>Modelled from the spec: \<open>node::forward(key, value)\<close> publishes a value under a key.\<close>

definition forward :: "string \<Rightarrow> nat \<Rightarrow> 'z node_scheme \<Rightarrow> 'z node_scheme" where
  "forward key v n = n\<lparr>forwarded := (forwarded n)(key \<mapsto> v)\<rparr>"

text \<open>Modelled from the spec: \<open>node::set_steps(n)\<close> declares the total amount of work.\<close>

definition set_steps :: "nat \<Rightarrow> 'z node_scheme \<Rightarrow> 'z node_scheme" where
  "set_steps k n = n\<lparr>steps := k\<rparr>"

text \<open>Modelled from the spec: \<open>node::step(k)\<close> reports \<open>k\<close> units of progress.\<close>

definition step :: "nat \<Rightarrow> 'z node_scheme \<Rightarrow> 'z node_scheme" where
  "step k n = n\<lparr>stepped := stepped n @ [k]\<rparr>"

text \<open>
  Modelled from the spec: the downstream \<open>dest_t\<close> offers \<open>push(item)\<close> and nothing else.
  It is represented by the sequence of items pushed into it so far, oldest first.
\<close>

type_synonym 'a dest_t = "'a list"

text \<open>Modelled from the spec: \<open>dest_t::push(item)\<close> hands one item to the downstream.\<close>

definition push :: "'a \<Rightarrow> 'a dest_t \<Rightarrow> 'a dest_t" where
  "push x d = d @ [x]"

text \<open>
  What can go wrong inside the adapters: \<open>*item\<close> is read although no call has set
  \<open>item\<close> (\<open>InvalidDereference\<close>). \<open>ContainerError\<close> is the fatal runtime error of the
  specification; no function of \<open>ami_glue.h\<close> raises it.
\<close>

datatype failure = InvalidDereference | ContainerError err

section \<open>The adapters of \<open>ami_glue.h\<close>\<close>

subsection \<open>\<open>input_ami_stream_t\<close>\<close>

record 'a input_ami_stream_t = node +
  stream :: "'a ami_stream"
  dest :: "'a dest_t"

text \<open>
  The constructor stores the stream reference and the downstream. The node part starts
  with no forwarded value, no declared total and no reported step.
\<close>

definition new_input_ami_stream_t :: "'a dest_t \<Rightarrow> 'a ami_stream \<Rightarrow> 'a input_ami_stream_t" where
  "new_input_ami_stream_t d s =
     \<lparr>forwarded = Map.empty, steps = 0, stepped = [], stream = s, dest = d\<rparr>"

definition input_ami_stream_propagate :: "'a input_ami_stream_t \<Rightarrow> 'a input_ami_stream_t" where
  "input_ami_stream_propagate st =
     set_steps (stream_len (stream st)) (forward ''items'' (stream_len (stream st)) st)"

definition input_ami_stream_begin :: "'a input_ami_stream_t \<Rightarrow> 'a input_ami_stream_t" where
  "input_ami_stream_begin st = st\<lparr>stream := seek 0 (stream st)\<rparr>"

text \<open>
  The loop of \<open>go\<close> runs while \<open>read_item\<close> returns \<open>NO_ERROR\<close>; each round pushes
  \<open>*item\<close> and calls \<open>step(1)\<close>. Every other status ends the loop and \<open>go\<close> returns.
  The branch \<open>None\<close> under \<open>NO_ERROR\<close> stands for a container that reports success
  without setting \<open>item\<close>; the stream above never does.
\<close>

function input_ami_stream_go :: "'a input_ami_stream_t \<Rightarrow> failure + 'a input_ami_stream_t" where
  "input_ami_stream_go st =
     (case read_item (stream st) of (e, item, s') \<Rightarrow>
        if e = NO_ERROR then
          (case item of
             None \<Rightarrow> Inl InvalidDereference
           | Some v \<Rightarrow> input_ami_stream_go (step 1 (st\<lparr>stream := s', dest := push v (dest st)\<rparr>)))
        else Inr (st\<lparr>stream := s'\<rparr>))"
  by pat_completeness auto
termination
  by (relation "measure (\<lambda>st. length (items (stream st)) - pos (stream st))")
     (auto simp: read_item_def step_def split: if_splits)

subsection \<open>\<open>input_ami_stack_t\<close>\<close>

text \<open>
  The class does not override \<open>begin\<close>: the inherited one does nothing, and a run of this
  node is \<open>propagate\<close> followed by \<open>go\<close>.
\<close>

record 'a input_ami_stack_t = node +
  stack :: "'a ami_stack"
  dest :: "'a dest_t"

text \<open>The constructor stores the stack reference and the downstream.\<close>

definition new_input_ami_stack_t :: "'a dest_t \<Rightarrow> 'a ami_stack \<Rightarrow> 'a input_ami_stack_t" where
  "new_input_ami_stack_t d s =
     \<lparr>forwarded = Map.empty, steps = 0, stepped = [],
      input_ami_stack_t.stack = s, input_ami_stack_t.dest = d\<rparr>"

definition input_ami_stack_propagate :: "'a input_ami_stack_t \<Rightarrow> 'a input_ami_stack_t" where
  "input_ami_stack_propagate st =
     set_steps (size_stack (input_ami_stack_t.stack st))
       (forward ''items'' (size_stack (input_ami_stack_t.stack st)) st)"

text \<open>
  The loop of \<open>go\<close> runs while \<open>pop\<close> returns \<open>NO_ERROR\<close>; each round pushes \<open>*item\<close>
  and calls \<open>step(1)\<close>. Every other status ends the loop and \<open>go\<close> returns.
\<close>

function input_ami_stack_go :: "'a input_ami_stack_t \<Rightarrow> failure + 'a input_ami_stack_t" where
  "input_ami_stack_go st =
     (case pop (input_ami_stack_t.stack st) of (e, item, s') \<Rightarrow>
        if e = NO_ERROR then
          (case item of
             None \<Rightarrow> Inl InvalidDereference
           | Some v \<Rightarrow>
               input_ami_stack_go
                 (step 1 (st\<lparr>input_ami_stack_t.stack := s',
                             input_ami_stack_t.dest := push v (input_ami_stack_t.dest st)\<rparr>)))
        else Inr (st\<lparr>input_ami_stack_t.stack := s'\<rparr>))"
  by pat_completeness auto
termination
  by (relation "measure (\<lambda>st. length (elems (input_ami_stack_t.stack st)))")
     (auto simp: pop_def step_def split: if_splits list.splits)

subsection \<open>\<open>pull_input_ami_stack_t\<close>\<close>

record 'a pull_input_ami_stack_t = node +
  stack :: "'a ami_stack"

text \<open>The constructor stores the stack reference; a pull source has no downstream.\<close>

definition new_pull_input_ami_stack_t :: "'a ami_stack \<Rightarrow> 'a pull_input_ami_stack_t" where
  "new_pull_input_ami_stack_t s =
     \<lparr>forwarded = Map.empty, steps = 0, stepped = [], pull_input_ami_stack_t.stack = s\<rparr>"

definition pull_input_ami_stack_propagate ::
  "'a pull_input_ami_stack_t \<Rightarrow> 'a pull_input_ami_stack_t" where
  "pull_input_ami_stack_propagate st =
     set_steps (size_stack (pull_input_ami_stack_t.stack st))
       (forward ''items'' (size_stack (pull_input_ami_stack_t.stack st)) st)"

definition can_pull :: "'a pull_input_ami_stack_t \<Rightarrow> bool" where
  "can_pull st = (\<not> is_empty (pull_input_ami_stack_t.stack st))"

text \<open>
  \<open>pull\<close> declares \<open>item\<close> without a value, calls \<open>pop\<close>, drops the status and returns
  \<open>*item\<close>. When \<open>pop\<close> has not set \<open>item\<close> the read of \<open>*item\<close> is the failure
  \<open>InvalidDereference\<close>.
\<close>

definition pull :: "'a pull_input_ami_stack_t \<Rightarrow> failure + ('a \<times> 'a pull_input_ami_stack_t)" where
  "pull st =
     (case pop (pull_input_ami_stack_t.stack st) of (e, item, s') \<Rightarrow>
        (case item of
           None \<Rightarrow> Inl InvalidDereference
         | Some v \<Rightarrow> Inr (v, st\<lparr>pull_input_ami_stack_t.stack := s'\<rparr>)))"

section \<open>The builders\<close>

text \<open>
  Each builder returns a pipeline prefix whose type names a factory, the node class the
  factory instantiates, and the container reference it captures. The prefix is recorded
  as data: the kind of prefix, the kind of factory, the node class named in the template
  argument, and the captured container. \<open>Pull_input_t\<close> is \<open>bits::pull_input_t\<close>, a class
  that \<open>ami_glue.h\<close> does not define.
\<close>

datatype prefix_kind = Pipe_begin | Pullpipe_begin

datatype factory_kind = Factory | Termfactory

datatype node_class =
  Input_ami_stream_t | Input_ami_stack_t | Pull_input_ami_stack_t | Pull_input_t

record 'c pipe_prefix =
  prefix :: prefix_kind
  factory :: factory_kind
  constructs :: node_class
  captured :: 'c

definition input_ami_stream :: "'a ami_stream \<Rightarrow> 'a ami_stream pipe_prefix" where
  "input_ami_stream input =
     \<lparr>prefix = Pipe_begin, factory = Factory, constructs = Input_ami_stream_t,
      captured = input\<rparr>"

definition input_ami_stack :: "'a ami_stack \<Rightarrow> 'a ami_stack pipe_prefix" where
  "input_ami_stack input =
     \<lparr>prefix = Pipe_begin, factory = Factory, constructs = Input_ami_stack_t,
      captured = input\<rparr>"

definition pull_input_ami_stack :: "'a ami_stack \<Rightarrow> 'a ami_stack pipe_prefix" where
  "pull_input_ami_stack fs =
     \<lparr>prefix = Pullpipe_begin, factory = Termfactory, constructs = Pull_input_t,
      captured = fs\<rparr>"

section \<open>Runs, consumers and the behaviour the specification describes\<close>

text \<open>
  Modelled from the spec: the pipeline runtime, which calls \<open>propagate\<close>, \<open>begin\<close> and
  \<open>go\<close> of a push source in this order, once per run.
\<close>

definition input_ami_stream_run ::
  "'a input_ami_stream_t \<Rightarrow> failure + 'a input_ami_stream_t" where
  "input_ami_stream_run st =
     input_ami_stream_go (input_ami_stream_begin (input_ami_stream_propagate st))"

text \<open>
  Modelled from the spec: a run of the push-stack source. Its \<open>begin\<close> is the inherited
  one, which does nothing.
\<close>

definition input_ami_stack_run ::
  "'a input_ami_stack_t \<Rightarrow> failure + 'a input_ami_stack_t" where
  "input_ami_stack_run st = input_ami_stack_go (input_ami_stack_propagate st)"

text \<open>
  Modelled from the spec: a pull consumer that calls \<open>pull\<close> as long as \<open>can_pull\<close>
  holds, and collects the items in the order it receives them.
\<close>

function pull_while ::
  "'a pull_input_ami_stack_t \<Rightarrow> 'a list \<Rightarrow> failure + ('a list \<times> 'a pull_input_ami_stack_t)" where
  "pull_while st acc =
     (if can_pull st then
        (case pull st of
           Inl f \<Rightarrow> Inl f
         | Inr (v, st') \<Rightarrow> pull_while st' (acc @ [v]))
      else Inr (acc, st))"
  by pat_completeness auto
termination
  by (relation "measure (\<lambda>(st, acc). length (elems (pull_input_ami_stack_t.stack st)))")
     (auto simp: pull_def pop_def split: if_splits list.splits)

text \<open>
  Modelled from the spec: a pull consumer that calls \<open>pull\<close> \<open>k\<close> times without asking
  \<open>can_pull\<close>; the result is
  \<open>Inr\<close> when all \<open>k\<close> calls succeed, with the items in the order of the calls.
\<close>

fun pulls ::
  "nat \<Rightarrow> 'a pull_input_ami_stack_t \<Rightarrow> failure + ('a list \<times> 'a pull_input_ami_stack_t)" where
  "pulls 0 st = Inr ([], st)"
| "pulls (Suc k) st =
     (case pull st of
        Inl f \<Rightarrow> Inl f
      | Inr (v, st') \<Rightarrow>
          (case pulls k st' of
             Inl f \<Rightarrow> Inl f
           | Inr (vs, st'') \<Rightarrow> Inr (v # vs, st'')))"

text \<open>
  The \<open>go\<close> of the specification, section 4.2: on \<open>ok\<close> push and \<open>step(1)\<close>, on
  \<open>end_of_stream\<close> return normally, on any other status raise a fatal error. This
  function follows the words of the specification, not the code.
\<close>

function input_ami_stream_go_spec ::
  "'a input_ami_stream_t \<Rightarrow> failure + 'a input_ami_stream_t" where
  "input_ami_stream_go_spec st =
     (case read_item (stream st) of (e, item, s') \<Rightarrow>
        if e = NO_ERROR then
          (case item of
             None \<Rightarrow> Inl InvalidDereference
           | Some v \<Rightarrow>
               input_ami_stream_go_spec
                 (step 1 (st\<lparr>stream := s',
                             input_ami_stream_t.dest := push v (input_ami_stream_t.dest st)\<rparr>)))
        else if e = END_OF_STREAM then Inr (st\<lparr>stream := s'\<rparr>)
        else Inl (ContainerError e))"
  by pat_completeness auto
termination
  by (relation "measure (\<lambda>st. length (items (stream st)) - pos (stream st))")
     (auto simp: read_item_def step_def split: if_splits)

text \<open>
  The \<open>go\<close> of the specification, section 4.3: on \<open>ok\<close> push and \<open>step(1)\<close>, on
  \<open>end_of_stack\<close> return normally, on any other status raise a fatal error. This
  function follows the words of the specification, not the code.
\<close>

function input_ami_stack_go_spec ::
  "'a input_ami_stack_t \<Rightarrow> failure + 'a input_ami_stack_t" where
  "input_ami_stack_go_spec st =
     (case pop (input_ami_stack_t.stack st) of (e, item, s') \<Rightarrow>
        if e = NO_ERROR then
          (case item of
             None \<Rightarrow> Inl InvalidDereference
           | Some v \<Rightarrow>
               input_ami_stack_go_spec
                 (step 1 (st\<lparr>input_ami_stack_t.stack := s',
                             input_ami_stack_t.dest := push v (input_ami_stack_t.dest st)\<rparr>)))
        else if e = END_OF_STREAM then Inr (st\<lparr>input_ami_stack_t.stack := s'\<rparr>)
        else Inl (ContainerError e))"
  by pat_completeness auto
termination
  by (relation "measure (\<lambda>st. length (elems (input_ami_stack_t.stack st)))")
     (auto simp: pop_def step_def split: if_splits list.splits)

text \<open>
  What the container delivers to a reader that stops at the first status other than
  \<open>NO_ERROR\<close>: the items from the cursor up to the first unreadable position or the end
  of the stream.
\<close>

definition readable :: "'a ami_stream \<Rightarrow> 'a list" where
  "readable s =
     map (\<lambda>p. items s ! p) (takeWhile (\<lambda>p. p \<notin> set (bad s)) [pos s ..< length (items s)])"

text \<open>
  The same for the stack: the items from the top down to the first unreadable height or
  the bottom.
\<close>

fun poppable_from :: "'a list \<Rightarrow> nat list \<Rightarrow> 'a list" where
  "poppable_from [] b = []"
| "poppable_from (x # xs) b =
     (if Suc (length xs) \<in> set b then [] else x # poppable_from xs b)"

definition poppable :: "'a ami_stack \<Rightarrow> 'a list" where
  "poppable s = poppable_from (elems s) (bad_heights s)"

text \<open>
  Every item of the stream can be read: no unreadable position lies below the length.
\<close>

definition items_readable :: "'a ami_stream \<Rightarrow> bool" where
  "items_readable s = (\<forall>p \<in> set (bad s). length (items s) \<le> p)"

text \<open>
  Every item of the stack can be read: no unreadable height lies between 1 and the size.
\<close>

definition items_poppable :: "'a ami_stack \<Rightarrow> bool" where
  "items_poppable s = (\<forall>h \<in> set (bad_heights s). h = 0 \<or> length (elems s) < h)"

text \<open>
  The defining equations of the loops are unfolded by hand, one iteration at a time.
\<close>

declare input_ami_stream_go.simps [simp del]
declare input_ami_stack_go.simps [simp del]
declare input_ami_stream_go_spec.simps [simp del]
declare input_ami_stack_go_spec.simps [simp del]
declare pull_while.simps [simp del]

section \<open>What \<open>go\<close> computes\<close>

lemma readable_step:
  "pos s \<notin> set (bad s) \<Longrightarrow> pos s < length (items s) \<Longrightarrow>
   readable s = items s ! pos s # readable (s\<lparr>pos := Suc (pos s)\<rparr>)"
  by (simp add: readable_def upt_conv_Cons)

lemma readable_stop:
  "pos s \<in> set (bad s) \<or> \<not> pos s < length (items s) \<Longrightarrow> readable s = []"
  by (cases "pos s < length (items s)") (auto simp: readable_def upt_conv_Cons)

lemma input_ami_stream_go_result:
  "input_ami_stream_go st =
     Inr (st\<lparr>stream := (stream st)\<lparr>pos := pos (stream st) + length (readable (stream st))\<rparr>,
             input_ami_stream_t.dest := input_ami_stream_t.dest st @ readable (stream st),
             stepped := stepped st @ replicate (length (readable (stream st))) 1\<rparr>)"
proof (induction st rule: input_ami_stream_go.induct)
  case (1 st)
  let ?s = "stream st"
  show ?case
  proof (cases "pos ?s \<notin> set (bad ?s) \<and> pos ?s < length (items ?s)")
    case True
    then have rd: "read_item ?s = (NO_ERROR, Some (items ?s ! pos ?s), ?s\<lparr>pos := Suc (pos ?s)\<rparr>)"
      by (simp add: read_item_def)
    have r: "readable ?s = items ?s ! pos ?s # readable (?s\<lparr>pos := Suc (pos ?s)\<rparr>)"
      using True by (simp add: readable_step)
    note IH = "1.IH"[OF rd[symmetric] refl refl refl, unfolded step_def push_def, simplified]
    show ?thesis
      by (subst input_ami_stream_go.simps) (simp add: rd r step_def push_def IH)
  next
    case False
    then have r: "readable ?s = []" by (simp add: readable_stop)
    from False have "fst (read_item ?s) \<noteq> NO_ERROR \<and> snd (snd (read_item ?s)) = ?s"
      by (auto simp: read_item_def)
    then show ?thesis
      by (subst input_ami_stream_go.simps) (auto simp: r split: prod.splits)
  qed
qed

lemma poppable_step:
  "elems s = x # xs \<Longrightarrow> Suc (length xs) \<notin> set (bad_heights s) \<Longrightarrow>
   poppable s = x # poppable (s\<lparr>elems := xs\<rparr>)"
  by (simp add: poppable_def)

lemma poppable_stop:
  "elems s = [] \<or> length (elems s) \<in> set (bad_heights s) \<Longrightarrow> poppable s = []"
  by (cases "elems s") (auto simp: poppable_def)

lemma input_ami_stack_go_result:
  "input_ami_stack_go st =
     Inr (st\<lparr>input_ami_stack_t.stack :=
               (input_ami_stack_t.stack st)
                 \<lparr>elems := drop (length (poppable (input_ami_stack_t.stack st)))
                             (elems (input_ami_stack_t.stack st))\<rparr>,
             input_ami_stack_t.dest :=
               input_ami_stack_t.dest st @ poppable (input_ami_stack_t.stack st),
             stepped :=
               stepped st @ replicate (length (poppable (input_ami_stack_t.stack st))) 1\<rparr>)"
proof (induction st rule: input_ami_stack_go.induct)
  case (1 st)
  let ?s = "input_ami_stack_t.stack st"
  show ?case
  proof (cases "elems ?s = [] \<or> length (elems ?s) \<in> set (bad_heights ?s)")
    case True
    then have r: "poppable ?s = []" by (rule poppable_stop)
    from True have "fst (pop ?s) \<noteq> NO_ERROR \<and> snd (snd (pop ?s)) = ?s"
      by (auto simp: pop_def split: list.splits)
    then show ?thesis
      by (subst input_ami_stack_go.simps) (auto simp: r split: prod.splits)
  next
    case False
    then obtain x xs where e: "elems ?s = x # xs" by (cases "elems ?s") auto
    with False have nb: "Suc (length xs) \<notin> set (bad_heights ?s)" by simp
    have pp: "pop ?s = (NO_ERROR, Some x, ?s\<lparr>elems := xs\<rparr>)"
      using e nb by (simp add: pop_def)
    have r: "poppable ?s = x # poppable (?s\<lparr>elems := xs\<rparr>)"
      using e nb by (rule poppable_step)
    note IH = "1.IH"[OF pp[symmetric] refl refl refl, unfolded step_def push_def, simplified]
    show ?thesis
      by (subst input_ami_stack_go.simps) (simp add: pp r step_def push_def IH e)
  qed
qed

text \<open>
  A container all of whose items can be read delivers all of them.
\<close>

lemma readable_all:
  assumes "items_readable s"
  shows "readable (seek 0 s) = items s"
proof -
  have "\<forall>p \<in> set [0 ..< length (items s)]. p \<notin> set (bad s)"
    using assms by (auto simp: items_readable_def)
  then have tw:
    "takeWhile (\<lambda>p. p \<notin> set (bad s)) [0 ..< length (items s)] = [0 ..< length (items s)]"
    by (simp only: takeWhile_eq_all_conv)
  show ?thesis
    by (simp add: readable_def seek_def tw map_nth)
qed

lemma length_readable_le: "length (readable s) \<le> length (items s) - pos s"
proof -
  have "length (takeWhile (\<lambda>p. p \<notin> set (bad s)) [pos s ..< length (items s)])
          \<le> length [pos s ..< length (items s)]"
    by (rule length_takeWhile_le)
  then show ?thesis by (simp add: readable_def)
qed

lemma poppable_from_all:
  "\<forall>h \<in> set b. h = 0 \<or> length xs < h \<Longrightarrow> poppable_from xs b = xs"
proof (induction xs)
  case Nil
  then show ?case by simp
next
  case (Cons x xs)
  have "Suc (length xs) \<notin> set b"
    using Cons.prems by auto
  moreover have "\<forall>h \<in> set b. h = 0 \<or> length xs < h"
    using Cons.prems by auto
  ultimately show ?case
    using Cons.IH by simp
qed

lemma poppable_all: "items_poppable s \<Longrightarrow> poppable s = elems s"
  by (simp add: poppable_def items_poppable_def poppable_from_all)

lemma length_poppable_from_le: "length (poppable_from xs b) \<le> length xs"
  by (induction xs) simp_all

lemma length_poppable_le: "length (poppable s) \<le> length (elems s)"
  by (simp add: poppable_def length_poppable_from_le)

lemma sum_list_take_ones: "sum_list (take k (replicate n (1::nat))) = min k n"
  by (simp add: take_replicate sum_list_replicate)

section \<open>Order of the items\<close>

text \<open>
  Claim C2, as amended (order fidelity, stream). Let the stream hold
  \<open>[a0, \<dots>, a_{N-1}]\<close>, with its cursor anywhere, and let every one of these items be
  readable without an error status. After \<open>begin\<close> has moved the cursor to position 0,
  \<open>go\<close> returns normally and has pushed exactly \<open>a0, \<dots>, a_{N-1}\<close> into the downstream,
  in this order, behind whatever the downstream had received before.
\<close>

theorem order_fidelity_stream:
  assumes "items_readable (stream st)"
  shows "\<exists>st'. input_ami_stream_go (input_ami_stream_begin st) = Inr st' \<and>
               input_ami_stream_t.dest st' = input_ami_stream_t.dest st @ items (stream st)"
proof -
  have "readable (stream (input_ami_stream_begin st)) = items (stream st)"
    using assms by (simp add: input_ami_stream_begin_def readable_all)
  then show ?thesis
    by (simp add: input_ami_stream_go_result input_ami_stream_begin_def)
qed

theorem order_fidelity_stream_witness:
  "items_readable (stream (new_input_ami_stream_t [] \<lparr>items = [10, 20, 30 :: nat], pos = 2, bad = []\<rparr>)) \<and>
   (\<exists>st'. input_ami_stream_go
            (input_ami_stream_begin
              (new_input_ami_stream_t [] \<lparr>items = [10, 20, 30 :: nat], pos = 2, bad = []\<rparr>)) = Inr st' \<and>
          input_ami_stream_t.dest st' = [10, 20, 30])"
  using order_fidelity_stream
          [of "new_input_ami_stream_t [] \<lparr>items = [10, 20, 30 :: nat], pos = 2, bad = []\<rparr>"]
  by (simp add: new_input_ami_stream_t_def items_readable_def)

text \<open>
  Claim C2, as stated for every stream, fails. The stream holds \<open>[10, 20, 30]\<close> and the
  read of its third item reports \<open>IO_ERROR\<close>: after \<open>begin\<close>, \<open>go\<close> returns normally with
  \<open>10, 20\<close> pushed and the cursor on the third item, which the downstream never receives.
\<close>

theorem order_fidelity_stream_counterexample:
  "input_ami_stream_go
     (input_ami_stream_begin
        (new_input_ami_stream_t [] \<lparr>items = [10, 20, 30 :: nat], pos = 2, bad = [2]\<rparr>)) =
     Inr ((new_input_ami_stream_t [10, 20] \<lparr>items = [10, 20, 30], pos = 2, bad = [2]\<rparr>)
            \<lparr>stepped := [1, 1]\<rparr>) \<and>
   [10, 20] \<noteq> items \<lparr>items = [10, 20, 30 :: nat], pos = 2, bad = [2]\<rparr> \<and>
   fst (read_item \<lparr>items = [10, 20, 30 :: nat], pos = 2, bad = [2]\<rparr>) = IO_ERROR"
  by (simp add: input_ami_stream_go.simps input_ami_stream_begin_def new_input_ami_stream_t_def
        seek_def read_item_def step_def push_def)

text \<open>
  Claim C3, as amended (order fidelity, stack). Let the stack hold, top first,
  \<open>[t0, \<dots>, t_{N-1}]\<close>, and let every one of these items be readable without an error
  status. Then \<open>go\<close> of the push-stack source returns normally, has pushed exactly
  \<open>t0, \<dots>, t_{N-1}\<close> into the downstream in this order, and leaves the stack empty.
\<close>

theorem order_fidelity_stack:
  assumes "items_poppable (input_ami_stack_t.stack st)"
  shows "\<exists>st'. input_ami_stack_go st = Inr st' \<and>
               input_ami_stack_t.dest st' =
                 input_ami_stack_t.dest st @ elems (input_ami_stack_t.stack st) \<and>
               elems (input_ami_stack_t.stack st') = [] \<and>
               is_empty (input_ami_stack_t.stack st')"
  using assms by (simp add: input_ami_stack_go_result poppable_all is_empty_def)

theorem order_fidelity_stack_witness:
  "items_poppable (input_ami_stack_t.stack
      (new_input_ami_stack_t [] \<lparr>elems = [7, 8, 9 :: nat], bad_heights = []\<rparr>)) \<and>
   (\<exists>st'. input_ami_stack_go
            (new_input_ami_stack_t [] \<lparr>elems = [7, 8, 9 :: nat], bad_heights = []\<rparr>) = Inr st' \<and>
          input_ami_stack_t.dest st' = [7, 8, 9] \<and>
          elems (input_ami_stack_t.stack st') = [])"
  using order_fidelity_stack
          [of "new_input_ami_stack_t [] \<lparr>elems = [7, 8, 9 :: nat], bad_heights = []\<rparr>"]
  by (auto simp: new_input_ami_stack_t_def items_poppable_def)

text \<open>
  Claim C3, as stated for every stack, fails. The stack holds, top first, \<open>[7, 8, 9]\<close>
  and the \<open>pop\<close> of its last item reports \<open>IO_ERROR\<close>: \<open>go\<close> returns normally with
  \<open>7, 8\<close> pushed, and the stack still holds \<open>9\<close>.
\<close>

theorem order_fidelity_stack_counterexample:
  "input_ami_stack_go
     (new_input_ami_stack_t [] \<lparr>elems = [7, 8, 9 :: nat], bad_heights = [1]\<rparr>) =
     Inr ((new_input_ami_stack_t [7, 8] \<lparr>elems = [9], bad_heights = [1]\<rparr>)\<lparr>stepped := [1, 1]\<rparr>) \<and>
   \<not> is_empty \<lparr>elems = [9 :: nat], bad_heights = [1]\<rparr> \<and>
   fst (pop \<lparr>elems = [9 :: nat], bad_heights = [1]\<rparr>) = IO_ERROR"
  by (simp add: input_ami_stack_go.simps new_input_ami_stack_t_def pop_def step_def push_def
        is_empty_def)

section \<open>Counts, progress and the state of the stream\<close>

lemma input_ami_stream_run_result:
  "input_ami_stream_run st =
     Inr (st\<lparr>forwarded := (forwarded st)(''items'' \<mapsto> length (items (stream st))),
             steps := length (items (stream st)),
             stream := (stream st)\<lparr>pos := length (readable (seek 0 (stream st)))\<rparr>,
             input_ami_stream_t.dest := input_ami_stream_t.dest st @ readable (seek 0 (stream st)),
             stepped := stepped st @ replicate (length (readable (seek 0 (stream st)))) 1\<rparr>)"
  by (simp add: input_ami_stream_run_def input_ami_stream_go_result input_ami_stream_begin_def
        input_ami_stream_propagate_def forward_def set_steps_def stream_len_def seek_def)

lemma input_ami_stack_run_result:
  "input_ami_stack_run st =
     Inr (st\<lparr>forwarded := (forwarded st)(''items'' \<mapsto> length (elems (input_ami_stack_t.stack st))),
             steps := length (elems (input_ami_stack_t.stack st)),
             input_ami_stack_t.stack :=
               (input_ami_stack_t.stack st)
                 \<lparr>elems := drop (length (poppable (input_ami_stack_t.stack st)))
                             (elems (input_ami_stack_t.stack st))\<rparr>,
             input_ami_stack_t.dest :=
               input_ami_stack_t.dest st @ poppable (input_ami_stack_t.stack st),
             stepped :=
               stepped st @ replicate (length (poppable (input_ami_stack_t.stack st))) 1\<rparr>)"
  by (simp add: input_ami_stack_run_def input_ami_stack_go_result
        input_ami_stack_propagate_def forward_def set_steps_def size_stack_def)

text \<open>
  Claim C1, as amended (count fidelity). For the push-stream source and for the
  push-stack source, over a container of \<open>N\<close> items every one of which is readable
  without an error status: a run (\<open>propagate\<close>, then \<open>begin\<close> where the class has one,
  then \<open>go\<close>, with nothing touching the container in between) returns normally, the
  number of items pushed into the downstream during \<open>go\<close> is \<open>N\<close>, and \<open>N\<close> is both the
  value published under the key \<open>items\<close> and the total declared by \<open>set_steps\<close>.
\<close>

theorem count_fidelity:
  "(items_readable (stream st) \<longrightarrow>
      (\<exists>st' pushed.
         input_ami_stream_run st = Inr st' \<and>
         input_ami_stream_t.dest st' = input_ami_stream_t.dest st @ pushed \<and>
         length pushed = stream_len (stream st) \<and>
         forwarded st' ''items'' = Some (length pushed) \<and>
         steps st' = length pushed)) \<and>
   (items_poppable (input_ami_stack_t.stack sk) \<longrightarrow>
      (\<exists>sk' pushed.
         input_ami_stack_run sk = Inr sk' \<and>
         input_ami_stack_t.dest sk' = input_ami_stack_t.dest sk @ pushed \<and>
         length pushed = size_stack (input_ami_stack_t.stack sk) \<and>
         forwarded sk' ''items'' = Some (length pushed) \<and>
         steps sk' = length pushed))"
  by (simp add: input_ami_stream_run_result input_ami_stack_run_result readable_all
        poppable_all stream_len_def size_stack_def)

theorem count_fidelity_witness:
  "items_readable (stream (new_input_ami_stream_t [] \<lparr>items = [10, 20, 30 :: nat], pos = 0, bad = []\<rparr>)) \<and>
   (\<exists>st' pushed.
      input_ami_stream_run
        (new_input_ami_stream_t [] \<lparr>items = [10, 20, 30 :: nat], pos = 0, bad = []\<rparr>) = Inr st' \<and>
      input_ami_stream_t.dest st' = pushed \<and> length pushed = 3 \<and>
      forwarded st' ''items'' = Some 3 \<and> steps st' = 3) \<and>
   items_poppable (input_ami_stack_t.stack
      (new_input_ami_stack_t [] \<lparr>elems = [7, 8, 9 :: nat], bad_heights = []\<rparr>)) \<and>
   (\<exists>sk' pushed.
      input_ami_stack_run
        (new_input_ami_stack_t [] \<lparr>elems = [7, 8, 9 :: nat], bad_heights = []\<rparr>) = Inr sk' \<and>
      input_ami_stack_t.dest sk' = pushed \<and> length pushed = 3 \<and>
      forwarded sk' ''items'' = Some 3 \<and> steps sk' = 3)"
  using count_fidelity
          [of "new_input_ami_stream_t [] \<lparr>items = [10, 20, 30 :: nat], pos = 0, bad = []\<rparr>"
              "new_input_ami_stack_t [] \<lparr>elems = [7, 8, 9 :: nat], bad_heights = []\<rparr>"]
  by (auto simp: new_input_ami_stream_t_def new_input_ami_stack_t_def stream_len_def size_stack_def
        items_readable_def items_poppable_def)

text \<open>
  Claim C1, as stated for every container that is not mutated, fails. The stream holds
  \<open>[10, 20]\<close> and the read of its second item reports \<open>IO_ERROR\<close>: the run returns
  normally, \<open>propagate\<close> has published 2 under \<open>items\<close> and declared 2 steps, and \<open>go\<close>
  has pushed one item. On the stack \<open>[7, 8, 9]\<close> whose second \<open>pop\<close> reports \<open>IO_ERROR\<close>
  the run publishes 3 and pushes one item.
\<close>

theorem count_fidelity_counterexample:
  "input_ami_stream_run
     (new_input_ami_stream_t [] \<lparr>items = [10, 20 :: nat], pos = 0, bad = [1]\<rparr>) =
     Inr ((new_input_ami_stream_t [10] \<lparr>items = [10, 20], pos = 1, bad = [1]\<rparr>)
            \<lparr>forwarded := [''items'' \<mapsto> 2], steps := 2, stepped := [1]\<rparr>) \<and>
   length [10 :: nat] \<noteq> 2 \<and>
   input_ami_stack_run
     (new_input_ami_stack_t [] \<lparr>elems = [7, 8, 9 :: nat], bad_heights = [2]\<rparr>) =
     Inr ((new_input_ami_stack_t [7] \<lparr>elems = [8, 9], bad_heights = [2]\<rparr>)
            \<lparr>forwarded := [''items'' \<mapsto> 3], steps := 3, stepped := [1]\<rparr>) \<and>
   length [7 :: nat] \<noteq> 3"
  by (simp add: input_ami_stream_run_def input_ami_stack_run_def
        input_ami_stream_go.simps input_ami_stack_go.simps
        input_ami_stream_propagate_def input_ami_stream_begin_def input_ami_stack_propagate_def
        new_input_ami_stream_t_def new_input_ami_stack_t_def forward_def set_steps_def
        stream_len_def size_stack_def seek_def read_item_def pop_def step_def push_def
        numeral_2_eq_2 numeral_3_eq_3)

text \<open>
  Claim C8, as amended (the stream is not mutated). A complete run of the push-stream
  source (\<open>propagate\<close>, \<open>begin\<close>, \<open>go\<close>) returns normally and leaves the items of the
  stream, and so its length, as they were; when every item of the stream is readable
  without an error status, the cursor stands at the end of the stream afterwards.
\<close>

theorem stream_not_mutated:
  "\<exists>st'. input_ami_stream_run st = Inr st' \<and>
         items (stream st') = items (stream st) \<and>
         stream_len (stream st') = stream_len (stream st) \<and>
         (items_readable (stream st) \<longrightarrow> pos (stream st') = stream_len (stream st'))"
  by (simp add: input_ami_stream_run_result readable_all stream_len_def)

theorem stream_not_mutated_witness:
  "items_readable (stream
      (new_input_ami_stream_t [] \<lparr>items = [10, 20, 30 :: nat], pos = 1, bad = []\<rparr>)) \<and>
   (\<exists>st'. input_ami_stream_run
           (new_input_ami_stream_t [] \<lparr>items = [10, 20, 30 :: nat], pos = 1, bad = []\<rparr>) = Inr st' \<and>
         items (stream st') = [10, 20, 30] \<and>
         stream_len (stream st') = 3 \<and>
         pos (stream st') = 3)"
  using stream_not_mutated
          [of "new_input_ami_stream_t [] \<lparr>items = [10, 20, 30 :: nat], pos = 1, bad = []\<rparr>"]
  by (auto simp: new_input_ami_stream_t_def stream_len_def items_readable_def)

text \<open>
  Claim C8, as stated for every complete run, fails in its second half. The stream holds
  \<open>[10, 20, 30]\<close> and the read of its first item reports \<open>IO_ERROR\<close>: the run returns
  normally with the cursor at position 0 of 3, not at the end of the stream.
\<close>

theorem stream_not_mutated_counterexample:
  "input_ami_stream_run
     (new_input_ami_stream_t [] \<lparr>items = [10, 20, 30 :: nat], pos = 3, bad = [0]\<rparr>) =
     Inr ((new_input_ami_stream_t [] \<lparr>items = [10, 20, 30], pos = 0, bad = [0]\<rparr>)
            \<lparr>forwarded := [''items'' \<mapsto> 3], steps := 3\<rparr>) \<and>
   pos \<lparr>items = [10, 20, 30 :: nat], pos = 0, bad = [0]\<rparr> \<noteq>
     stream_len \<lparr>items = [10, 20, 30 :: nat], pos = 0, bad = [0]\<rparr>"
  by (simp add: input_ami_stream_run_def input_ami_stream_go.simps
        input_ami_stream_propagate_def input_ami_stream_begin_def
        new_input_ami_stream_t_def forward_def set_steps_def
        stream_len_def seek_def read_item_def numeral_3_eq_3)

text \<open>
  Claim C9 (progress never exceeds the declared total). For both push sources, a run
  returns normally; the \<open>step\<close> calls made during \<open>go\<close> are appended to the log, the
  declared total is the size \<open>N\<close> of the container, and after every one of these calls
  the sum of the steps reported so far is at most \<open>N\<close>. This holds whatever statuses the
  container reports.
\<close>

theorem progress_bounded:
  "(\<exists>st' log.
      input_ami_stream_run st = Inr st' \<and> stepped st' = stepped st @ log \<and>
      steps st' = stream_len (stream st) \<and>
      (\<forall>k \<le> length log. sum_list (take k log) \<le> steps st')) \<and>
   (\<exists>sk' log.
      input_ami_stack_run sk = Inr sk' \<and> stepped sk' = stepped sk @ log \<and>
      steps sk' = size_stack (input_ami_stack_t.stack sk) \<and>
      (\<forall>k \<le> length log. sum_list (take k log) \<le> steps sk'))"
proof -
  have a: "length (readable (seek 0 (stream st))) \<le> length (items (stream st))"
    using length_readable_le[of "seek 0 (stream st)"] by (simp add: seek_def)
  have b: "length (poppable (input_ami_stack_t.stack sk)) \<le> length (elems (input_ami_stack_t.stack sk))"
    by (rule length_poppable_le)
  show ?thesis
    using a b
    by (simp add: input_ami_stream_run_result input_ami_stack_run_result sum_list_replicate
          stream_len_def size_stack_def)
qed

theorem progress_bounded_witness:
  "(\<exists>st'. input_ami_stream_run
            (new_input_ami_stream_t [] \<lparr>items = [10, 20 :: nat], pos = 0, bad = [1]\<rparr>) = Inr st' \<and>
          sum_list (take 1 (stepped st')) \<le> steps st' \<and> steps st' = 2) \<and>
   (\<exists>sk'. input_ami_stack_run
            (new_input_ami_stack_t [] \<lparr>elems = [7, 8, 9 :: nat], bad_heights = []\<rparr>) = Inr sk' \<and>
          sum_list (take 3 (stepped sk')) \<le> steps sk' \<and> steps sk' = 3)"
  using progress_bounded
          [of "new_input_ami_stream_t [] \<lparr>items = [10, 20 :: nat], pos = 0, bad = [1]\<rparr>"
              "new_input_ami_stack_t [] \<lparr>elems = [7, 8, 9 :: nat], bad_heights = []\<rparr>"]
  by (auto simp: new_input_ami_stream_t_def new_input_ami_stack_t_def
        input_ami_stream_run_result input_ami_stack_run_result)

section \<open>Statuses other than \<open>NO_ERROR\<close>\<close>

lemma read_item_status:
  "fst (read_item s) \<noteq> NO_ERROR \<Longrightarrow> snd (snd (read_item s)) = s"
  by (simp add: read_item_def split: if_splits)

lemma read_item_ok_item:
  "read_item s = (NO_ERROR, item, s') \<Longrightarrow> \<exists>v. item = Some v"
  by (auto simp: read_item_def split: if_splits)

lemma pop_status:
  "fst (pop s) \<noteq> NO_ERROR \<Longrightarrow> snd (snd (pop s)) = s"
  by (simp add: pop_def split: if_splits list.splits)

lemma pop_ok_item:
  "pop s = (NO_ERROR, item, s') \<Longrightarrow> \<exists>v. item = Some v"
  by (auto simp: pop_def split: if_splits list.splits)

lemma input_ami_stream_go_stops:
  "input_ami_stream_go st = Inr st' \<Longrightarrow> fst (read_item (stream st')) \<noteq> NO_ERROR"
proof (induction st rule: input_ami_stream_go.induct)
  case (1 st)
  obtain e item s' where rd: "read_item (stream st) = (e, item, s')"
    by (cases "read_item (stream st)") auto
  show ?case
  proof (cases "e = NO_ERROR")
    case True
    with rd obtain v where v: "item = Some v" by (auto dest: read_item_ok_item)
    from "1.prems" have
      "input_ami_stream_go
         (step 1 (st\<lparr>stream := s',
                     input_ami_stream_t.dest := push v (input_ami_stream_t.dest st)\<rparr>)) = Inr st'"
      by (subst (asm) input_ami_stream_go.simps) (simp add: rd True v)
    with "1.IH"[OF rd[symmetric] refl True v] show ?thesis by simp
  next
    case False
    from "1.prems" have "st' = st\<lparr>stream := s'\<rparr>"
      by (subst (asm) input_ami_stream_go.simps) (simp add: rd False)
    moreover from rd False have "s' = stream st"
      using read_item_status[of "stream st"] by simp
    ultimately show ?thesis using rd False by simp
  qed
qed

lemma input_ami_stack_go_stops:
  "input_ami_stack_go st = Inr st' \<Longrightarrow> fst (pop (input_ami_stack_t.stack st')) \<noteq> NO_ERROR"
proof (induction st rule: input_ami_stack_go.induct)
  case (1 st)
  obtain e item s' where rd: "pop (input_ami_stack_t.stack st) = (e, item, s')"
    by (cases "pop (input_ami_stack_t.stack st)") auto
  show ?case
  proof (cases "e = NO_ERROR")
    case True
    with rd obtain v where v: "item = Some v" by (auto dest: pop_ok_item)
    from "1.prems" have
      "input_ami_stack_go
         (step 1 (st\<lparr>input_ami_stack_t.stack := s',
                     input_ami_stack_t.dest := push v (input_ami_stack_t.dest st)\<rparr>)) = Inr st'"
      by (subst (asm) input_ami_stack_go.simps) (simp add: rd True v)
    with "1.IH"[OF rd[symmetric] refl True v] show ?thesis by simp
  next
    case False
    from "1.prems" have "st' = st\<lparr>input_ami_stack_t.stack := s'\<rparr>"
      by (subst (asm) input_ami_stack_go.simps) (simp add: rd False)
    moreover from rd False have "s' = input_ami_stack_t.stack st"
      using pop_status[of "input_ami_stack_t.stack st"] by simp
    ultimately show ?thesis using rd False by simp
  qed
qed

text \<open>
  Claim C4, as amended. The specification lets \<open>go\<close> raise a fatal error on a status that
  is neither ok nor end of input; the loops of both push sources end on every status
  other than \<open>NO_ERROR\<close> and raise nothing. For both adapters and every container: \<open>go\<close>
  returns normally, the status the container reports next is not \<open>NO_ERROR\<close>
  (\<open>END_OF_STREAM\<close> or an error alike), and the items pushed are those the container
  delivered before that status, a prefix of its items.
\<close>

theorem go_returns_on_every_status:
  "(\<exists>st'. input_ami_stream_go st = Inr st' \<and>
          fst (read_item (stream st')) \<noteq> NO_ERROR \<and>
          input_ami_stream_t.dest st' = input_ami_stream_t.dest st @ readable (stream st)) \<and>
   (\<exists>sk'. input_ami_stack_go sk = Inr sk' \<and>
          fst (pop (input_ami_stack_t.stack sk')) \<noteq> NO_ERROR \<and>
          input_ami_stack_t.dest sk' =
            input_ami_stack_t.dest sk @ poppable (input_ami_stack_t.stack sk))"
proof -
  obtain st' where a: "input_ami_stream_go st = Inr st'"
    by (simp add: input_ami_stream_go_result)
  obtain sk' where b: "input_ami_stack_go sk = Inr sk'"
    by (simp add: input_ami_stack_go_result)
  from a have a1: "fst (read_item (stream st')) \<noteq> NO_ERROR"
    by (rule input_ami_stream_go_stops)
  from a have a2: "input_ami_stream_t.dest st' = input_ami_stream_t.dest st @ readable (stream st)"
    by (auto simp: input_ami_stream_go_result)
  from b have b1: "fst (pop (input_ami_stack_t.stack sk')) \<noteq> NO_ERROR"
    by (rule input_ami_stack_go_stops)
  from b have b2: "input_ami_stack_t.dest sk' =
                     input_ami_stack_t.dest sk @ poppable (input_ami_stack_t.stack sk)"
    by (auto simp: input_ami_stack_go_result)
  from a a1 a2 b b1 b2 show ?thesis by blast
qed

theorem go_returns_on_every_status_witness:
  "(\<exists>st'. input_ami_stream_go
            (new_input_ami_stream_t [] \<lparr>items = [10, 20 :: nat], pos = 0, bad = [1]\<rparr>) = Inr st' \<and>
          fst (read_item (stream st')) \<noteq> NO_ERROR \<and>
          input_ami_stream_t.dest st' = [10]) \<and>
   (\<exists>sk'. input_ami_stack_go
            (new_input_ami_stack_t [] \<lparr>elems = [7, 8, 9 :: nat], bad_heights = [2]\<rparr>) = Inr sk' \<and>
          fst (pop (input_ami_stack_t.stack sk')) \<noteq> NO_ERROR \<and>
          input_ami_stack_t.dest sk' = [7])"
  using go_returns_on_every_status
          [of "new_input_ami_stream_t [] \<lparr>items = [10, 20 :: nat], pos = 0, bad = [1]\<rparr>"
              "new_input_ami_stack_t [] \<lparr>elems = [7, 8, 9 :: nat], bad_heights = [2]\<rparr>"]
  by (simp add: new_input_ami_stream_t_def new_input_ami_stack_t_def readable_def poppable_def)

text \<open>
  Claim C4, as stated, fails. The second read of the stream \<open>[10, 20]\<close> reports
  \<open>IO_ERROR\<close>: \<open>go\<close> returns normally with only \<open>10\<close> pushed, where the \<open>go\<close> of the
  specification raises the container error. The same happens on the stack \<open>[7, 8, 9]\<close>
  whose second \<open>pop\<close> reports \<open>IO_ERROR\<close>.
\<close>

theorem go_raises_counterexample:
  "fst (read_item \<lparr>items = [10, 20 :: nat], pos = 1, bad = [1]\<rparr>) = IO_ERROR \<and>
   input_ami_stream_go
     (new_input_ami_stream_t [] \<lparr>items = [10, 20 :: nat], pos = 0, bad = [1]\<rparr>) =
     Inr ((new_input_ami_stream_t [10] \<lparr>items = [10, 20], pos = 1, bad = [1]\<rparr>)\<lparr>stepped := [1]\<rparr>) \<and>
   input_ami_stream_go_spec
     (new_input_ami_stream_t [] \<lparr>items = [10, 20 :: nat], pos = 0, bad = [1]\<rparr>) =
     Inl (ContainerError IO_ERROR) \<and>
   fst (pop \<lparr>elems = [8, 9 :: nat], bad_heights = [2]\<rparr>) = IO_ERROR \<and>
   input_ami_stack_go
     (new_input_ami_stack_t [] \<lparr>elems = [7, 8, 9 :: nat], bad_heights = [2]\<rparr>) =
     Inr ((new_input_ami_stack_t [7] \<lparr>elems = [8, 9], bad_heights = [2]\<rparr>)\<lparr>stepped := [1]\<rparr>) \<and>
   input_ami_stack_go_spec
     (new_input_ami_stack_t [] \<lparr>elems = [7, 8, 9 :: nat], bad_heights = [2]\<rparr>) =
     Inl (ContainerError IO_ERROR)"
  by (simp add: input_ami_stream_go.simps input_ami_stream_go_spec.simps
        input_ami_stack_go.simps input_ami_stack_go_spec.simps
        new_input_ami_stream_t_def new_input_ami_stack_t_def
        read_item_def pop_def step_def push_def)

section \<open>The pull-stack source\<close>

lemma pull_top:
  "elems (pull_input_ami_stack_t.stack st) = x # xs \<Longrightarrow>
   Suc (length xs) \<notin> set (bad_heights (pull_input_ami_stack_t.stack st)) \<Longrightarrow>
   pull st = Inr (x, st\<lparr>pull_input_ami_stack_t.stack :=
                          (pull_input_ami_stack_t.stack st)\<lparr>elems := xs\<rparr>\<rparr>)"
  by (simp add: pull_def pop_def)

lemma pull_Inr:
  "pull st = Inr (v, st') \<Longrightarrow>
   \<exists>xs. elems (pull_input_ami_stack_t.stack st) = v # xs \<and>
        st' = st\<lparr>pull_input_ami_stack_t.stack :=
                    (pull_input_ami_stack_t.stack st)\<lparr>elems := xs\<rparr>\<rparr>"
  by (auto simp: pull_def pop_def split: if_splits list.splits)

lemma pull_while_all:
  "elems (pull_input_ami_stack_t.stack st) = xs \<Longrightarrow>
   items_poppable (pull_input_ami_stack_t.stack st) \<Longrightarrow>
   pull_while st acc =
     Inr (acc @ xs, st\<lparr>pull_input_ami_stack_t.stack :=
                         (pull_input_ami_stack_t.stack st)\<lparr>elems := []\<rparr>\<rparr>)"
proof (induction xs arbitrary: st acc)
  case Nil
  then have "st\<lparr>pull_input_ami_stack_t.stack :=
                 (pull_input_ami_stack_t.stack st)\<lparr>elems := []\<rparr>\<rparr> = st"
    by (metis ami_stack.surjective ami_stack.update_convs(1) pull_input_ami_stack_t.surjective
          pull_input_ami_stack_t.update_convs(1))
  with Nil show ?case
    by (subst pull_while.simps) (simp add: can_pull_def is_empty_def)
next
  case (Cons x xs)
  let ?st' = "st\<lparr>pull_input_ami_stack_t.stack := (pull_input_ami_stack_t.stack st)\<lparr>elems := xs\<rparr>\<rparr>"
  have top: "Suc (length xs) \<notin> set (bad_heights (pull_input_ami_stack_t.stack st))"
    using Cons.prems by (auto simp: items_poppable_def)
  have rest: "items_poppable (pull_input_ami_stack_t.stack ?st')"
    using Cons.prems by (auto simp: items_poppable_def)
  have p: "pull st = Inr (x, ?st')"
    using Cons.prems(1) top by (simp add: pull_top)
  have "pull_while ?st' (acc @ [x]) =
          Inr ((acc @ [x]) @ xs,
               ?st'\<lparr>pull_input_ami_stack_t.stack := (pull_input_ami_stack_t.stack ?st')\<lparr>elems := []\<rparr>\<rparr>)"
    using rest by (intro Cons.IH) simp_all
  then show ?case
    using Cons.prems(1) by (subst pull_while.simps) (simp add: can_pull_def is_empty_def p)
qed

text \<open>
  Claim C5, as amended (pull duality). Take a pull-stack source and a push-stack source
  over the same initial stack, every item of which is readable without an error status.
  The consumer that calls \<open>pull\<close> while \<open>can_pull\<close> holds terminates with a sequence of
  items, and this is the sequence that \<open>go\<close> of the push-stack source pushes into its
  downstream.
\<close>

theorem pull_duality:
  assumes "pull_input_ami_stack_t.stack pl = input_ami_stack_t.stack ps"
    and "items_poppable (input_ami_stack_t.stack ps)"
  shows "\<exists>xs pl' ps'.
           pull_while pl [] = Inr (xs, pl') \<and>
           input_ami_stack_go ps = Inr ps' \<and>
           input_ami_stack_t.dest ps' = input_ami_stack_t.dest ps @ xs"
proof -
  have "pull_while pl [] =
          Inr ([] @ elems (input_ami_stack_t.stack ps),
               pl\<lparr>pull_input_ami_stack_t.stack := (pull_input_ami_stack_t.stack pl)\<lparr>elems := []\<rparr>\<rparr>)"
    using assms by (intro pull_while_all) simp_all
  then show ?thesis
    using assms(2) by (simp add: input_ami_stack_go_result poppable_all)
qed

theorem pull_duality_witness:
  "pull_input_ami_stack_t.stack
     (new_pull_input_ami_stack_t \<lparr>elems = [1, 2 :: nat], bad_heights = []\<rparr>) =
   input_ami_stack_t.stack
     (new_input_ami_stack_t [] \<lparr>elems = [1, 2 :: nat], bad_heights = []\<rparr>) \<and>
   items_poppable (input_ami_stack_t.stack
     (new_input_ami_stack_t [] \<lparr>elems = [1, 2 :: nat], bad_heights = []\<rparr>)) \<and>
   (\<exists>xs pl' ps'.
      pull_while (new_pull_input_ami_stack_t \<lparr>elems = [1, 2 :: nat], bad_heights = []\<rparr>) [] =
        Inr (xs, pl') \<and>
      input_ami_stack_go (new_input_ami_stack_t [] \<lparr>elems = [1, 2 :: nat], bad_heights = []\<rparr>) =
        Inr ps' \<and>
      input_ami_stack_t.dest ps' = xs)"
  using pull_duality
          [of "new_pull_input_ami_stack_t \<lparr>elems = [1, 2 :: nat], bad_heights = []\<rparr>"
              "new_input_ami_stack_t [] \<lparr>elems = [1, 2 :: nat], bad_heights = []\<rparr>"]
  by (simp add: new_pull_input_ami_stack_t_def new_input_ami_stack_t_def items_poppable_def)

text \<open>
  Claim C5, as stated for every initial stack, fails. The stack holds, top first,
  \<open>[1, 2, 3]\<close> and the \<open>pop\<close> of its second item reports \<open>IO_ERROR\<close>. The pull consumer
  receives \<open>1\<close>; \<open>can_pull\<close> then holds, and the next \<open>pull\<close> reads \<open>*item\<close> although
  \<open>pop\<close> has not set it, so the consumer obtains no sequence. \<open>go\<close> of the push-stack
  source returns normally on the same stack, with \<open>1\<close> pushed.
\<close>

theorem pull_duality_counterexample:
  "pull_while (new_pull_input_ami_stack_t \<lparr>elems = [1, 2, 3 :: nat], bad_heights = [2]\<rparr>) [] =
     Inl InvalidDereference \<and>
   input_ami_stack_go
     (new_input_ami_stack_t [] \<lparr>elems = [1, 2, 3 :: nat], bad_heights = [2]\<rparr>) =
     Inr ((new_input_ami_stack_t [1] \<lparr>elems = [2, 3], bad_heights = [2]\<rparr>)\<lparr>stepped := [1]\<rparr>)"
  by (simp add: pull_while.simps input_ami_stack_go.simps can_pull_def is_empty_def pull_def
        new_pull_input_ami_stack_t_def new_input_ami_stack_t_def pop_def step_def push_def)

lemma pulls_result:
  "pulls k st = Inr (vs, st') \<Longrightarrow>
   k \<le> length (elems (pull_input_ami_stack_t.stack st)) \<and>
   vs = take k (elems (pull_input_ami_stack_t.stack st))"
proof (induction k arbitrary: st vs st')
  case 0
  then show ?case by simp
next
  case (Suc k)
  from Suc.prems obtain v st1 vs1 where
    p: "pull st = Inr (v, st1)" and q: "pulls k st1 = Inr (vs1, st')" and vs: "vs = v # vs1"
    by (auto split: sum.splits prod.splits)
  from p obtain xs where
    xs: "elems (pull_input_ami_stack_t.stack st) = v # xs"
        "st1 = st\<lparr>pull_input_ami_stack_t.stack := (pull_input_ami_stack_t.stack st)\<lparr>elems := xs\<rparr>\<rparr>"
    by (auto dest: pull_Inr)
  from Suc.IH[OF q] xs vs show ?case by simp
qed

lemma pulls_nominal:
  "bad_heights (pull_input_ami_stack_t.stack st) = [] \<Longrightarrow>
   k \<le> length (elems (pull_input_ami_stack_t.stack st)) \<Longrightarrow>
   \<exists>vs st'. pulls k st = Inr (vs, st')"
proof (induction k arbitrary: st)
  case 0
  then show ?case by simp
next
  case (Suc k)
  then obtain x xs where e: "elems (pull_input_ami_stack_t.stack st) = x # xs"
    by (cases "elems (pull_input_ami_stack_t.stack st)") auto
  let ?st' = "st\<lparr>pull_input_ami_stack_t.stack := (pull_input_ami_stack_t.stack st)\<lparr>elems := xs\<rparr>\<rparr>"
  have p: "pull st = Inr (x, ?st')"
    using e Suc.prems by (simp add: pull_top)
  have "\<exists>vs st'. pulls k ?st' = Inr (vs, st')"
    using e Suc.prems by (intro Suc.IH) simp_all
  with p show ?case by auto
qed

text \<open>
  Claim C6 (the pull-stack source is LIFO). \<open>can_pull\<close> holds exactly when the stack is
  not empty. Let \<open>st\<close> be the node at pipeline start and \<open>k \<ge> 1\<close>: when the first \<open>k\<close>
  calls of \<open>pull\<close> after \<open>propagate\<close> succeed, the stack held at least \<open>k\<close> items and
  the \<open>k\<close>-th call returned the item at depth \<open>k - 1\<close> of the initial stack; and when
  the pops report only \<open>NO_ERROR\<close> or \<open>END_OF_STREAM\<close>, the first \<open>k\<close> calls do succeed
  for every \<open>k\<close> up to the size of the stack.
\<close>

theorem pull_lifo:
  "(can_pull st \<longleftrightarrow> elems (pull_input_ami_stack_t.stack st) \<noteq> []) \<and>
   (\<forall>k vs st'.
      1 \<le> k \<longrightarrow> pulls k (pull_input_ami_stack_propagate st) = Inr (vs, st') \<longrightarrow>
      k \<le> size_stack (pull_input_ami_stack_t.stack st) \<and>
      vs ! (k - 1) = elems (pull_input_ami_stack_t.stack st) ! (k - 1)) \<and>
   (\<forall>k. bad_heights (pull_input_ami_stack_t.stack st) = [] \<longrightarrow>
        k \<le> size_stack (pull_input_ami_stack_t.stack st) \<longrightarrow>
        (\<exists>vs st'. pulls k (pull_input_ami_stack_propagate st) = Inr (vs, st')))"
proof -
  have s: "pull_input_ami_stack_t.stack (pull_input_ami_stack_propagate st) =
           pull_input_ami_stack_t.stack st"
    by (simp add: pull_input_ami_stack_propagate_def forward_def set_steps_def)
  have a: "can_pull st \<longleftrightarrow> elems (pull_input_ami_stack_t.stack st) \<noteq> []"
    by (simp add: can_pull_def is_empty_def)
  have b: "k \<le> size_stack (pull_input_ami_stack_t.stack st) \<and>
           vs ! (k - 1) = elems (pull_input_ami_stack_t.stack st) ! (k - 1)"
    if "1 \<le> k" "pulls k (pull_input_ami_stack_propagate st) = Inr (vs, st')" for k vs st'
    using pulls_result[OF that(2)] that(1) by (simp add: s size_stack_def)
  have c: "\<exists>vs st'. pulls k (pull_input_ami_stack_propagate st) = Inr (vs, st')"
    if "bad_heights (pull_input_ami_stack_t.stack st) = []"
       "k \<le> size_stack (pull_input_ami_stack_t.stack st)" for k
    using that by (intro pulls_nominal) (simp_all add: s size_stack_def)
  from a b c show ?thesis by blast
qed

theorem pull_lifo_witness:
  "can_pull (new_pull_input_ami_stack_t \<lparr>elems = [1, 2 :: nat], bad_heights = []\<rparr>) \<and>
   (\<exists>vs st'.
      pulls 2 (pull_input_ami_stack_propagate
                 (new_pull_input_ami_stack_t \<lparr>elems = [1, 2 :: nat], bad_heights = []\<rparr>)) =
        Inr (vs, st') \<and>
      vs ! 1 = 2 \<and> \<not> can_pull st')"
  using pull_lifo [of "new_pull_input_ami_stack_t \<lparr>elems = [1, 2 :: nat], bad_heights = []\<rparr>"]
  by (simp add: new_pull_input_ami_stack_t_def pull_input_ami_stack_propagate_def forward_def
        set_steps_def pull_def pop_def can_pull_def is_empty_def numeral_2_eq_2)

text \<open>
  Claim C10, as amended (the dereference in \<open>pull\<close>). \<open>pull\<close> does not look at the
  status of \<open>pop\<close>. When \<open>can_pull\<close> holds and the container can read its top item,
  \<open>pop\<close> reports \<open>NO_ERROR\<close> and \<open>pull\<close> returns the top item and removes it: the read
  of \<open>*item\<close> is valid. When \<open>can_pull\<close> does not hold, and whenever \<open>pop\<close> reports a
  status other than \<open>NO_ERROR\<close>, also after \<open>can_pull\<close> has returned true, \<open>pull\<close> reads
  \<open>*item\<close> although nothing has set \<open>item\<close>; it never raises a container error.
\<close>

theorem pull_dereference:
  "(can_pull st \<and>
    size_stack (pull_input_ami_stack_t.stack st) \<notin> set (bad_heights (pull_input_ami_stack_t.stack st)) \<longrightarrow>
      (\<exists>x xs. elems (pull_input_ami_stack_t.stack st) = x # xs \<and>
              fst (pop (pull_input_ami_stack_t.stack st)) = NO_ERROR \<and>
              pull st = Inr (x, st\<lparr>pull_input_ami_stack_t.stack :=
                                     (pull_input_ami_stack_t.stack st)\<lparr>elems := xs\<rparr>\<rparr>))) \<and>
   (\<not> can_pull st \<longrightarrow> pull st = Inl InvalidDereference) \<and>
   (fst (pop (pull_input_ami_stack_t.stack st)) \<noteq> NO_ERROR \<longrightarrow> pull st = Inl InvalidDereference) \<and>
   (\<forall>e. pull st \<noteq> Inl (ContainerError e))"
  by (cases "elems (pull_input_ami_stack_t.stack st)")
     (auto simp: pull_def pop_def can_pull_def is_empty_def size_stack_def split: option.splits)

theorem pull_dereference_witness:
  "can_pull (new_pull_input_ami_stack_t \<lparr>elems = [1, 2 :: nat], bad_heights = []\<rparr>) \<and>
   pull (new_pull_input_ami_stack_t \<lparr>elems = [1, 2 :: nat], bad_heights = []\<rparr>) =
     Inr (1, new_pull_input_ami_stack_t \<lparr>elems = [2], bad_heights = []\<rparr>) \<and>
   \<not> can_pull (new_pull_input_ami_stack_t \<lparr>elems = ([] :: nat list), bad_heights = []\<rparr>) \<and>
   pull (new_pull_input_ami_stack_t \<lparr>elems = ([] :: nat list), bad_heights = []\<rparr>) =
     Inl InvalidDereference \<and>
   fst (pop \<lparr>elems = [1, 2 :: nat], bad_heights = [2]\<rparr>) = IO_ERROR \<and>
   pull (new_pull_input_ami_stack_t \<lparr>elems = [1, 2 :: nat], bad_heights = [2]\<rparr>) =
     Inl InvalidDereference"
  using pull_dereference [of "new_pull_input_ami_stack_t \<lparr>elems = [1, 2 :: nat], bad_heights = []\<rparr>"]
        pull_dereference [of "new_pull_input_ami_stack_t \<lparr>elems = ([] :: nat list), bad_heights = []\<rparr>"]
        pull_dereference [of "new_pull_input_ami_stack_t \<lparr>elems = [1, 2 :: nat], bad_heights = [2]\<rparr>"]
  by (simp add: new_pull_input_ami_stack_t_def can_pull_def is_empty_def size_stack_def pop_def)

text \<open>
  Claim C10, as stated, fails: that \<open>can_pull\<close> has returned true does not make \<open>pop\<close>
  succeed. The stack holds, top first, \<open>[1, 2]\<close> and the \<open>pop\<close> of its top item reports
  \<open>IO_ERROR\<close>: \<open>can_pull\<close> holds, \<open>pop\<close> does not set \<open>item\<close>, and \<open>pull\<close> reaches
  the read of \<open>*item\<close> all the same.
\<close>

theorem pull_dereference_counterexample:
  "can_pull (new_pull_input_ami_stack_t \<lparr>elems = [1, 2 :: nat], bad_heights = [2]\<rparr>) \<and>
   pop \<lparr>elems = [1, 2 :: nat], bad_heights = [2]\<rparr> =
     (IO_ERROR, None, \<lparr>elems = [1, 2], bad_heights = [2]\<rparr>) \<and>
   pull (new_pull_input_ami_stack_t \<lparr>elems = [1, 2 :: nat], bad_heights = [2]\<rparr>) =
     Inl InvalidDereference"
  by (simp add: can_pull_def is_empty_def pull_def pop_def new_pull_input_ami_stack_t_def)

section \<open>The node classes the builders name\<close>

text \<open>
  Claim C7 (the builders). \<open>input_ami_stream\<close> and \<open>input_ami_stack\<close> return a
  \<open>pipe_begin\<close> over the adapter of the same name. \<open>pull_input_ami_stack\<close> returns a
  \<open>pullpipe_begin\<close>, but over \<open>bits::pull_input_t\<close>, not over \<open>pull_input_ami_stack_t\<close>:
  no builder instantiates the pull-stack adapter of this file.
\<close>

theorem pull_input_ami_stack_wiring:
  "constructs (input_ami_stream s) = Input_ami_stream_t \<and>
   prefix (input_ami_stream s) = Pipe_begin \<and>
   constructs (input_ami_stack k) = Input_ami_stack_t \<and>
   prefix (input_ami_stack k) = Pipe_begin \<and>
   prefix (pull_input_ami_stack fs) = Pullpipe_begin \<and>
   constructs (pull_input_ami_stack fs) = Pull_input_t \<and>
   constructs (pull_input_ami_stack fs) \<noteq> Pull_input_ami_stack_t"
  by (simp add: input_ami_stream_def input_ami_stack_def pull_input_ami_stack_def)

end
